theory Spec2Isabelle
  imports Complex_Main "HOL-Library.Sublist"
begin

section \<open>Values, errors and numpy primitives\<close>

text \<open>
  The two modules \<^verbatim>\<open>observation.py\<close> and \<^verbatim>\<open>newobservation.py\<close> each define a class
  \<^verbatim>\<open>Observation\<close>. Definitions taken from \<^verbatim>\<open>observation.py\<close> keep the source's names;
  those of \<^verbatim>\<open>newobservation.py\<close> carry the prefix \<open>new_\<close>.

  Wavelengths and fluxes are float64 in the source. They are modelled as exact reals:
  rounding and overflow are outside the model. Where the source divides by a value that
  can be zero, the result of numpy's division is written out (\<open>np_div\<close>).
\<close>

text \<open>
  The exceptions the modelled code can raise. The specification's names for them are
  \<open>DomainOverlapError\<close> (the \<open>ValueError\<close> of \<open>validate_overlap\<close>),
  \<open>InvalidForcePolicyError\<close> (its \<open>KeyError\<close>), \<open>DegenerateBinSetError\<close> (the
  \<open>IndexError\<close> of the bin edge construction), \<open>UnsupportedOperationError\<close>
  (\<open>NotImplementedError\<close>) and \<open>EmptyInputError\<close>.
\<close>

datatype error =
    ValueError string
  | KeyError string
  | IndexError
  | AttributeError
  | TypeError
  | NotImplementedError string
  | EmptyInputError

text \<open>A float64 produced by a division: a number, nan, or an infinity.\<close>

datatype npfloat = Num real | NaN | PosInf | NegInf

definition np_div :: "real \<Rightarrow> real \<Rightarrow> npfloat" where
  \<comment> \<open>numpy's float64 division: a zero divisor raises nothing (a RuntimeWarning at most)
      and gives nan for 0/0, an infinity otherwise.\<close>
  "np_div a b =
     (if b = 0 then (if a = 0 then NaN else if 0 < a then PosInf else NegInf)
      else Num (a / b))"

definition py_slice :: "'a list \<Rightarrow> int \<Rightarrow> int \<Rightarrow> 'a list" where
  \<comment> \<open>\<open>xs[first:last]\<close>: negative bounds count from the end, both bounds are clamped to
      the array, and a reversed range is empty.\<close>
  "py_slice xs first lst =
     (let n = int (length xs);
          a = (if first < 0 then max 0 (n + first) else min n first);
          b = (if lst < 0 then max 0 (n + lst) else min n lst)
      in take (nat (b - a)) (drop (nat a) xs))"

definition adjacent_diffs :: "'a::minus list \<Rightarrow> 'a list" where
  \<comment> \<open>\<open>xs[1:] - xs[:-1]\<close>\<close>
  "adjacent_diffs xs = map2 (-) (drop 1 xs) (butlast xs)"

definition adjacent_means :: "real list \<Rightarrow> real list" where
  \<comment> \<open>\<open>(xs[1:] + xs[:-1]) / 2.0\<close>\<close>
  "adjacent_means xs = map2 (\<lambda>a b. (a + b) / 2) (drop 1 xs) (butlast xs)"

definition np_mul :: "real list \<Rightarrow> real list \<Rightarrow> error + real list" where
  \<comment> \<open>\<open>xs * ys\<close> on one-dimensional arrays: elementwise on equal shapes, an array of one
      element is broadcast, any other pair of shapes raises ValueError.\<close>
  "np_mul xs ys =
     (if length xs = length ys then Inr (map2 (*) xs ys)
      else if length xs = 1 then Inr (map ((*) (hd xs)) ys)
      else if length ys = 1 then Inr (map (\<lambda>x. x * hd ys) xs)
      else Inl (ValueError ''operands could not be broadcast together''))"

definition np_divide :: "real list \<Rightarrow> real list \<Rightarrow> error + npfloat list" where
  \<comment> \<open>\<open>xs / ys\<close> on one-dimensional arrays, with the same shape rules.\<close>
  "np_divide xs ys =
     (if length xs = length ys then Inr (map2 np_div xs ys)
      else if length xs = 1 then Inr (map (np_div (hd xs)) ys)
      else if length ys = 1 then Inr (map (\<lambda>x. np_div x (hd ys)) xs)
      else Inl (ValueError ''operands could not be broadcast together''))"

fun finite_values :: "npfloat list \<Rightarrow> real list option" where
  "finite_values [] = Some []"
| "finite_values (Num x # vs) = map_option ((#) x) (finite_values vs)"
| "finite_values (_ # vs) = None"

definition searchsorted :: "real list \<Rightarrow> real \<Rightarrow> int" where
  \<comment> \<open>\<open>N.searchsorted(a, v)\<close> for one value \<open>v\<close>: the leftmost insertion point in the
      ascending array \<open>a\<close>, which is the number of its entries below \<open>v\<close>.\<close>
  "searchsorted a v = int (length (filter (\<lambda>x. x < v) a))"

definition MergeWaveSets :: "real list \<Rightarrow> real list \<Rightarrow> error + real list" where
  \<comment> \<open>Modelled from the spec: \<open>spectrum.MergeWaveSets\<close> is not part of the two modules.
      The specification's WavesetMerger returns the union of its inputs, ascending, with
      exact duplicates removed, and fails with EmptyInputError on an empty input grid.\<close>
  "MergeWaveSets waveset1 waveset2 =
     (if waveset1 = [] \<or> waveset2 = [] then Inl EmptyInputError
      else Inr (sort (remdups (waveset1 @ waveset2))))"

definition TrapezoidIntegrator :: "real list \<Rightarrow> real list \<Rightarrow> nat \<Rightarrow> nat \<Rightarrow> real" where
  \<comment> \<open>Modelled from the spec: the specification's TrapezoidIntegrator over a half-open
      index range, the sum of \<open>(f[i]+f[i+1])/2 * (w[i+1]-w[i])\<close> for \<open>i\<close> in the range.\<close>
  "TrapezoidIntegrator w f first lst =
     (\<Sum>i\<leftarrow>[first..<lst]. (f ! i + f ! (i + 1)) / 2 * (w ! (i + 1) - w ! i))"

definition trapezoidIntegration :: "real list \<Rightarrow> real list \<Rightarrow> real" where
  \<comment> \<open>Modelled from the spec: the method \<open>trapezoidIntegration\<close> is inherited from
      \<open>spectrum.CompositeSourceSpectrum\<close>, which is not part of the two modules. It is
      the specification's TrapezoidIntegrator over the whole grid.\<close>
  "trapezoidIntegration x y = TrapezoidIntegrator x y 0 (length x - 1)"

section \<open>Lower-casing and the force policy\<close>

definition lower_char :: "char \<Rightarrow> char" where
  \<comment> \<open>\<open>str.lower\<close> on one byte: the letters A to Z get bit 5 set.\<close>
  "lower_char c =
     (let n = (of_char c :: nat) in
      if 65 \<le> n \<and> n \<le> 90
      then Char (digit0 c) (digit1 c) (digit2 c) (digit3 c) (digit4 c) True (digit6 c) (digit7 c)
      else c)"

definition lower :: "string \<Rightarrow> string" where
  "lower s = map lower_char s"

text \<open>
  What an Observation asks of its spectrum and bandpass. These objects live in modules
  outside the two files, so they are parameters of the model: \<open>taper\<close> and \<open>tabulate\<close>
  may raise, \<open>bandWave\<close> stands for \<open>bandpass.obsmode.bandWave()\<close> and may raise or
  return None, \<open>composite_wave\<close> and \<open>composite_call\<close> are the \<open>wave\<close> property and the
  \<open>__call__\<close> method the Observation inherits from the composite of spectrum and
  bandpass.
\<close>

record ('sp, 'bp) collaborators =
  check_overlap :: "'sp \<Rightarrow> 'bp \<Rightarrow> string"
  taper :: "'sp \<Rightarrow> error + 'sp"
  tabulate :: "'sp \<Rightarrow> error + 'sp"
  spectrum_wave :: "'sp \<Rightarrow> real list"
  bandWave :: "'bp \<Rightarrow> error + real list option"
  band_str :: "'bp \<Rightarrow> string"
  composite_wave :: "'sp \<Rightarrow> 'bp \<Rightarrow> real list"
  composite_call :: "'sp \<Rightarrow> 'bp \<Rightarrow> real list \<Rightarrow> real list"

definition validate_overlap ::
  "('sp, 'bp) collaborators \<Rightarrow> 'sp \<Rightarrow> 'bp \<Rightarrow> string option \<Rightarrow> error + 'sp" where
  \<comment> \<open>Returns the value of \<open>self.spectrum\<close> after the call.\<close>
  "validate_overlap env spec band force =
     (case force of
        None \<Rightarrow>
          (let stat = check_overlap env spec band in
           if stat = ''full'' then Inr spec
           else if stat = ''partial'' then
             Inl (ValueError (''Spectrum and bandpass do not fully overlap. '' @
                  ''You may use force=[extrap|taper] to force this Observation anyway.''))
           else if stat = ''none'' then Inl (ValueError ''Spectrum and bandpass are disjoint'')
           else Inr spec)
      | Some f \<Rightarrow>
          if lower f = ''taper'' then
            (case taper env spec of
               Inl AttributeError \<Rightarrow>
                 (case tabulate env spec of Inl e \<Rightarrow> Inl e | Inr t \<Rightarrow> taper env t)
             | Inl e \<Rightarrow> Inl e
             | Inr s \<Rightarrow> Inr s)
          else if prefix ''extrap'' (lower f) then Inr spec
          else Inl (KeyError (''Illegal value force='' @ f @
                      ''; legal values=('taper','extrap')'')))"

section \<open>Choosing the bin centers\<close>

definition binset_msg :: "string \<Rightarrow> string" where
  "binset_msg b = ''('' @ b @ '') does not have a defined binset in the wavecat table. '' @
                  ''The waveset of the spectrum will be used instead.''"

definition initbinset ::
  "('sp, 'bp) collaborators \<Rightarrow> 'sp \<Rightarrow> 'bp \<Rightarrow> real list option
     \<Rightarrow> string list \<times> (error + real list)" where
  \<comment> \<open>\<open>observation.py\<close>. The result is what was printed and the value of
      \<open>self.binwave\<close>. Only KeyError and AttributeError are caught. \<open>spectrum.wave\<close> is
      an array, never None.\<close>
  "initbinset env spec band binset =
     (case binset of
        Some b \<Rightarrow> ([], Inr b)
      | None \<Rightarrow>
          (let msg = binset_msg (band_str env band) in
           case (case bandWave env band of
                   Inl (KeyError k) \<Rightarrow> Inr ([msg], Some (spectrum_wave env spec))
                 | Inl AttributeError \<Rightarrow> Inr ([msg], Some (spectrum_wave env spec))
                 | Inl e \<Rightarrow> Inl e
                 | Inr r \<Rightarrow> Inr ([], r)) of
             Inl e \<Rightarrow> ([], Inl e)
           | Inr (out, None) \<Rightarrow> (out @ [msg], Inr (spectrum_wave env spec))
           | Inr (out, Some b) \<Rightarrow> (out, Inr b)))"

definition new_initbinset ::
  "('sp, 'bp) collaborators \<Rightarrow> 'bp \<Rightarrow> real list option
     \<Rightarrow> string list \<times> (error + real list option)" where
  \<comment> \<open>\<open>newobservation.py\<close>: the message is printed and the exception raised again. The
      test \<open>binset == None\<close> is the test for None (as it was for an array in the numpy
      of the code's time). A \<open>bandWave()\<close> that returns None is stored as it is.\<close>
  "new_initbinset env band binset =
     (case binset of
        Some b \<Rightarrow> ([], Inr (Some b))
      | None \<Rightarrow>
          (let msg = band_str env band @
                 '' does not have a defined binset in the wavecat table. '' @
                 ''You must provide a binset.'' in
           case bandWave env band of
             Inl (KeyError k) \<Rightarrow> ([msg], Inl (KeyError k))
           | Inl AttributeError \<Rightarrow> ([msg], Inl AttributeError)
           | Inl e \<Rightarrow> ([], Inl e)
           | Inr r \<Rightarrow> ([], Inr r)))"

section \<open>Bin edges and the integration over each bin\<close>

definition midpoints :: "real list \<Rightarrow> real list" where
  \<comment> \<open>\<open>(binwave[1:] + binwave[:-1]) / 2.0\<close>\<close>
  "midpoints bw = adjacent_means bw"

definition endpoints :: "real list \<Rightarrow> error + real list" where
  \<comment> \<open>The array of \<open>len(midpoints)+2\<close> entries: entries 1 to -1 are the midpoints, then
      the two outer entries are written. \<open>binwave[0]\<close> on an empty array and
      \<open>midpoints[0]\<close> on an empty array raise IndexError.\<close>
  "endpoints bw =
     (let mid = midpoints bw in
      if bw = [] then Inl IndexError
      else if mid = [] then Inl IndexError
      else Inr ([hd bw - (hd mid - hd bw)] @ mid @ [last bw + (last bw - last mid)]))"

text \<open>
  What \<open>initbinflux\<close> stores in the object. The attributes \<open>_indices\<close>,
  \<open>_indices_last\<close>, \<open>_deltaw\<close>, \<open>_binflux\<close> and \<open>_intwave\<close> are written without their
  leading underscore. The indices are numpy integers, so they are modelled as \<open>int\<close>.
\<close>

record binning =
  indices :: "int list"
  indices_last :: "int list"
  deltaw :: "real list"
  binflux :: "npfloat list"
  intwave :: "real list"

fun bin_sums :: "real list \<Rightarrow> real list \<Rightarrow> (int \<times> int) list \<Rightarrow> error + (npfloat \<times> real) list" where
  \<comment> \<open>The loop of \<open>observation.py\<close> over the bins: the pair written to \<open>_binflux[i]\<close> and
      \<open>_intwave[i]\<close> for each pair \<open>(first, last)\<close>. Both arrays have \<open>len(binwave)\<close>
      entries, as many as there are pairs, so every entry is written once.\<close>
  "bin_sums avflux dw [] = Inr []"
| "bin_sums avflux dw ((first, lst) # rest) =
     (case np_mul (py_slice avflux first lst) (py_slice dw first lst) of
        Inl e \<Rightarrow> Inl e
      | Inr prd \<Rightarrow>
          (let bf = np_div (sum_list prd) (sum_list (py_slice dw first lst));
               iw = sum_list (py_slice dw first lst)
           in case bin_sums avflux dw rest of
                Inl e \<Rightarrow> Inl e
              | Inr r \<Rightarrow> Inr ((bf, iw) # r)))"

definition initbinflux ::
  "(real list \<Rightarrow> real list) \<Rightarrow> real list \<Rightarrow> real list \<Rightarrow> error + binning" where
  \<comment> \<open>\<open>observation.py\<close>: \<open>call\<close> is \<open>self(...)\<close>, \<open>wave\<close> is \<open>self.wave\<close>, \<open>bw\<close> is
      \<open>self.binwave\<close>.\<close>
  "initbinflux call wave bw =
     (case endpoints bw of Inl e \<Rightarrow> Inl e | Inr ep \<Rightarrow>
     (case MergeWaveSets wave ep of Inl e \<Rightarrow> Inl e | Inr spwave0 \<Rightarrow>
     (case MergeWaveSets spwave0 bw of Inl e \<Rightarrow> Inl e | Inr spwave \<Rightarrow>
        (let idx = map (searchsorted spwave) ep;
             diff = adjacent_diffs idx;
             firsts = butlast idx;
             lasts = map2 (+) firsts diff;
             flux = call spwave;
             avflux = adjacent_means flux;
             dw = adjacent_diffs spwave
         in case bin_sums avflux dw (zip firsts lasts) of
              Inl e \<Rightarrow> Inl e
            | Inr bins \<Rightarrow>
                Inr \<lparr>indices = firsts, indices_last = lasts, deltaw = dw,
                     binflux = map fst bins, intwave = map snd bins\<rparr>))))"

record new_binning =
  new_indices :: "int list"
  new_indices_last :: "int list"
  new_deltaw :: "real list"
  new_binflux :: "real list"

fun new_bin_sums :: "real list \<Rightarrow> real list \<Rightarrow> (int \<times> int) list \<Rightarrow> error + real list" where
  \<comment> \<open>The loop of \<open>newobservation.py\<close>: the sum is stored as it is.\<close>
  "new_bin_sums avflux dw [] = Inr []"
| "new_bin_sums avflux dw ((first, lst) # rest) =
     (case np_mul (py_slice avflux first lst) (py_slice dw first lst) of
        Inl e \<Rightarrow> Inl e
      | Inr prd \<Rightarrow>
          (case new_bin_sums avflux dw rest of
             Inl e \<Rightarrow> Inl e
           | Inr r \<Rightarrow> Inr (sum_list prd # r)))"

definition new_initbinflux ::
  "(real list \<Rightarrow> real list) \<Rightarrow> real list \<Rightarrow> real list \<Rightarrow> error + new_binning" where
  \<comment> \<open>\<open>newobservation.py\<close>: the grid is merged with the bin edges only.\<close>
  "new_initbinflux call wave bw =
     (case endpoints bw of Inl e \<Rightarrow> Inl e | Inr ep \<Rightarrow>
     (case MergeWaveSets wave ep of Inl e \<Rightarrow> Inl e | Inr spwave \<Rightarrow>
        (let idx = map (searchsorted spwave) ep;
             diff = adjacent_diffs idx;
             firsts = butlast idx;
             lasts = map2 (+) firsts diff;
             dw = adjacent_diffs spwave;
             flux = call spwave;
             avflux = adjacent_means flux
         in case new_bin_sums avflux dw (zip firsts lasts) of
              Inl e \<Rightarrow> Inl e
            | Inr totals \<Rightarrow>
                Inr \<lparr>new_indices = firsts, new_indices_last = lasts, new_deltaw = dw,
                     new_binflux = totals\<rparr>)))"

fun ranges_tile :: "(int \<times> int) list \<Rightarrow> int \<Rightarrow> int \<Rightarrow> bool" where
  \<comment> \<open>The specification's condition on the bins' half-open index ranges, in its words:
      they exactly tile the grid from index \<open>a\<close> to index \<open>b\<close>. The first range starts
      at \<open>a\<close>, each range starts where the one before ends, none is reversed, and the
      last ends at \<open>b\<close>.\<close>
  "ranges_tile [] a b = (a = b)"
| "ranges_tile ((first, lst) # rest) a b = (first = a \<and> first \<le> lst \<and> ranges_tile rest lst b)"

section \<open>Construction\<close>

record ('sp, 'bp) observation =
  spectrum :: 'sp
  bandpass :: 'bp
  binwave :: "real list"
  binned :: binning

definition Observation_init ::
  "('sp, 'bp) collaborators \<Rightarrow> 'sp \<Rightarrow> 'bp \<Rightarrow> real list option \<Rightarrow> string option
     \<Rightarrow> string list \<times> (error + ('sp, 'bp) observation)" where
  \<comment> \<open>\<open>Observation.__init__\<close> of \<open>observation.py\<close>: what was printed, and the object or
      the exception. The composite is built from the spectrum that \<open>validate_overlap\<close>
      leaves in \<open>self.spectrum\<close>.\<close>
  "Observation_init env spec band binset force =
     (case validate_overlap env spec band force of
        Inl e \<Rightarrow> ([], Inl e)
      | Inr sp \<Rightarrow>
          (case initbinset env sp band binset of
             (out, Inl e) \<Rightarrow> (out, Inl e)
           | (out, Inr bw) \<Rightarrow>
               (case initbinflux (composite_call env sp band) (composite_wave env sp band) bw of
                  Inl e \<Rightarrow> (out, Inl e)
                | Inr b \<Rightarrow>
                    (out, Inr \<lparr>spectrum = sp, bandpass = band, binwave = bw, binned = b\<rparr>))))"

record ('sp, 'bp) new_observation =
  new_spectrum :: 'sp
  new_bandpass :: 'bp
  new_binwave :: "real list"
  new_binned :: new_binning

definition new_Observation_init ::
  "('sp, 'bp) collaborators \<Rightarrow> 'sp \<Rightarrow> 'bp \<Rightarrow> real list option
     \<Rightarrow> string list \<times> (error + ('sp, 'bp) new_observation)" where
  \<comment> \<open>\<open>Observation.__init__\<close> of \<open>newobservation.py\<close>. Slicing a \<open>binwave\<close> that is None
      raises TypeError.\<close>
  "new_Observation_init env spec band binset =
     (case new_initbinset env band binset of
        (out, Inl e) \<Rightarrow> (out, Inl e)
      | (out, Inr None) \<Rightarrow> (out, Inl TypeError)
      | (out, Inr (Some bw)) \<Rightarrow>
          (case new_initbinflux (composite_call env spec band) (composite_wave env spec band) bw of
             Inl e \<Rightarrow> (out, Inl e)
           | Inr b \<Rightarrow>
               (out, Inr \<lparr>new_spectrum = spec, new_bandpass = band, new_binwave = bw,
                          new_binned = b\<rparr>)))"

section \<open>Disabled operations\<close>

text \<open>
  Each method returns either an exception or the object after the call together with
  the value returned.
\<close>

definition Observation_mul :: "'obs \<Rightarrow> 'a \<Rightarrow> error + 'obs \<times> 'r" where
  "Observation_mul self other = Inl (NotImplementedError ''Observations cannot be multiplied'')"

definition Observation_rmul :: "'obs \<Rightarrow> 'a \<Rightarrow> error + 'obs \<times> 'r" where
  "Observation_rmul self other = Inl (NotImplementedError ''Observations cannot be multiplied'')"

definition Observation_add :: "'obs \<Rightarrow> 'a \<Rightarrow> error + 'obs \<times> 'r" where
  "Observation_add self other = Inl (NotImplementedError ''Observations cannot be added'')"

definition Observation_radd :: "'obs \<Rightarrow> 'a \<Rightarrow> error + 'obs \<times> 'r" where
  "Observation_radd self other = Inl (NotImplementedError ''Observations cannot be added'')"

definition Observation_redshift :: "'obs \<Rightarrow> 'a \<Rightarrow> error + 'obs \<times> 'r" where
  "Observation_redshift self z = Inl (NotImplementedError ''Observations cannot be redshifted'')"

definition new_Observation_mul :: "'obs \<Rightarrow> 'a \<Rightarrow> error + 'obs \<times> 'r" where
  "new_Observation_mul self other =
     Inl (NotImplementedError ''Observations cannot be multiplied'')"

definition new_Observation_rmul :: "'obs \<Rightarrow> 'a \<Rightarrow> error + 'obs \<times> 'r" where
  "new_Observation_rmul self other =
     Inl (NotImplementedError ''Observations cannot be multiplied'')"

definition new_Observation_add :: "'obs \<Rightarrow> 'a \<Rightarrow> error + 'obs \<times> 'r" where
  "new_Observation_add self other = Inl (NotImplementedError ''Observations cannot be added'')"

definition new_Observation_radd :: "'obs \<Rightarrow> 'a \<Rightarrow> error + 'obs \<times> 'r" where
  "new_Observation_radd self other = Inl (NotImplementedError ''Observations cannot be added'')"

definition new_Observation_redshift :: "'obs \<Rightarrow> 'a \<Rightarrow> error + 'obs \<times> 'r" where
  "new_Observation_redshift self z =
     Inl (NotImplementedError ''Observations cannot be redshifted'')"

section \<open>Pivot wavelength\<close>

definition pivot :: "(real list \<Rightarrow> real list) \<Rightarrow> real list \<Rightarrow> error + real option" where
  \<comment> \<open>\<open>call\<close> is \<open>self(...)\<close>, \<open>wave\<close> is \<open>self.wave\<close>. \<open>Inr None\<close> stands for a returned
      float that the model does not determine: a wavelength of zero puts nan or an
      infinity into \<open>countdivwave\<close>. \<open>math.sqrt\<close> of a negative number raises
      ValueError.\<close>
  "pivot call wave =
     (case np_mul (call wave) wave of Inl e \<Rightarrow> Inl e | Inr countmulwave \<Rightarrow>
     (case np_divide (call wave) wave of Inl e \<Rightarrow> Inl e | Inr quot \<Rightarrow>
        (case finite_values quot of
           None \<Rightarrow> Inr None
         | Some countdivwave \<Rightarrow>
             (let num = trapezoidIntegration wave countmulwave;
                  den = trapezoidIntegration wave countdivwave
              in if num = 0 \<or> den = 0 then Inr (Some 0)
                 else if num / den < 0 then Inl (ValueError ''math domain error'')
                 else Inr (Some (sqrt (num / den)))))))"

section \<open>A concrete spectrum and bandpass\<close>

text \<open>
  The collaborators of the worked examples: a source that is flat at 2 on the grid
  100, 200, ..., 500, a bandpass without a bin grid of its own, whatever overlap status
  is asked for, and a spectrum type that records tapering and tabulation.
\<close>

datatype example_spectrum = Source | Tapered example_spectrum | Tabulated example_spectrum

definition example_env :: "string \<Rightarrow> (example_spectrum, unit) collaborators" where
  "example_env stat =
     \<lparr>check_overlap = (\<lambda>s b. stat),
      taper = (\<lambda>s. Inr (Tapered s)),
      tabulate = (\<lambda>s. Inr (Tabulated s)),
      spectrum_wave = (\<lambda>s. [100, 200, 300, 400, 500]),
      bandWave = (\<lambda>b. Inl AttributeError),
      band_str = (\<lambda>b. ''band''),
      composite_wave = (\<lambda>s b. [100, 200, 300, 400, 500]),
      composite_call = (\<lambda>s b ws. map (\<lambda>w. 2) ws)\<rparr>"

section \<open>Bin edges\<close>

lemma length_midpoints: "length (midpoints bw) = length bw - 1"
  by (simp add: midpoints_def adjacent_means_def)

lemma nth_midpoints:
  assumes "j < length bw - 1"
  shows "midpoints bw ! j = (bw ! (j + 1) + bw ! j) / 2"
  using assms by (simp add: midpoints_def adjacent_means_def nth_butlast)

lemma endpoints_Inr:
  assumes "2 \<le> length bw"
  shows "endpoints bw =
    Inr ([hd bw - (hd (midpoints bw) - hd bw)] @ midpoints bw @
         [last bw + (last bw - last (midpoints bw))])"
proof -
  have "bw \<noteq> []" using assms by auto
  moreover have "midpoints bw \<noteq> []"
    using assms length_midpoints [of bw] by auto
  ultimately show ?thesis by (simp add: endpoints_def Let_def)
qed

lemma endpoints_length:
  assumes "endpoints bw = Inr ep"
  shows "length ep = length bw + 1" and "2 \<le> length bw"
proof -
  from assms have ne: "bw \<noteq> []" and mne: "midpoints bw \<noteq> []"
    by (auto simp: endpoints_def Let_def split: if_splits)
  from mne have "length bw - 1 \<noteq> 0" using length_midpoints [of bw] by auto
  then show "2 \<le> length bw" by simp
  then show "length ep = length bw + 1"
    using assms endpoints_Inr [of bw] length_midpoints [of bw] by auto
qed

lemma endpoints_nth:
  assumes "endpoints bw = Inr ep"
  shows "ep ! 0 = bw ! 0 - (midpoints bw ! 0 - bw ! 0)"
    and "\<And>i. 1 \<le> i \<Longrightarrow> i < length bw \<Longrightarrow> ep ! i = midpoints bw ! (i - 1)"
    and "ep ! length bw =
           bw ! (length bw - 1) + (bw ! (length bw - 1) - midpoints bw ! (length bw - 2))"
proof -
  have len: "2 \<le> length bw" using assms by (rule endpoints_length)
  then have ne: "bw \<noteq> []" by auto
  have lm: "length (midpoints bw) = length bw - 1" by (rule length_midpoints)
  then have mne: "midpoints bw \<noteq> []" using len by auto
  have ep: "ep = (hd bw - (hd (midpoints bw) - hd bw)) # (midpoints bw @
         [last bw + (last bw - last (midpoints bw))])"
    using assms endpoints_Inr [OF len] by simp
  show "ep ! 0 = bw ! 0 - (midpoints bw ! 0 - bw ! 0)"
    using ne mne by (simp add: ep hd_conv_nth)
  show "ep ! i = midpoints bw ! (i - 1)" if "1 \<le> i" "i < length bw" for i
  proof -
    from that obtain j where j: "i = Suc j" by (cases i) auto
    with that lm have "j < length (midpoints bw)" by simp
    then show ?thesis by (simp add: ep j nth_append)
  qed
  obtain k where k: "length bw = Suc k" using len by (cases "length bw") auto
  have "ep ! length bw = (midpoints bw @ [last bw + (last bw - last (midpoints bw))]) ! (length bw - 1)"
    unfolding ep k by simp
  also have "\<dots> = last bw + (last bw - last (midpoints bw))"
    using lm by (metis nth_append_length)
  also have "\<dots> = bw ! (length bw - 1) + (bw ! (length bw - 1) - midpoints bw ! (length bw - 2))"
    using ne mne lm by (simp add: last_conv_nth diff_diff_add numeral_2_eq_2)
  finally show "ep ! length bw =
           bw ! (length bw - 1) + (bw ! (length bw - 1) - midpoints bw ! (length bw - 2))" .
qed

lemma endpoints_interior:
  assumes "endpoints bw = Inr ep" "1 \<le> i" "i < length bw"
  shows "ep ! i = (bw ! (i - 1) + bw ! i) / 2"
proof -
  have "ep ! i = midpoints bw ! (i - 1)" using assms by (rule endpoints_nth(2))
  also have "\<dots> = (bw ! (i - 1 + 1) + bw ! (i - 1)) / 2"
    using assms by (intro nth_midpoints) simp
  finally show ?thesis using assms by (simp add: add.commute)
qed

lemma endpoints_bracket:
  assumes "sorted_wrt (<) bw" and ep: "endpoints bw = Inr ep" and i: "i < length bw"
  shows "ep ! i < bw ! i" and "bw ! i < ep ! (i + 1)"
proof -
  let ?n = "length bw"
  have n2: "2 \<le> ?n" using ep by (rule endpoints_length)
  have inc: "bw ! a < bw ! b" if "a < b" "b < ?n" for a b
    using assms(1) that by (simp add: sorted_wrt_nth_less)
  have mid: "midpoints bw ! j = (bw ! j + bw ! (j + 1)) / 2" if "j < ?n - 1" for j
    using nth_midpoints [OF that] by (simp add: add.commute)
  show "ep ! i < bw ! i"
  proof (cases "i = 0")
    case True
    have "bw ! 0 < bw ! 1" using inc [of 0 1] n2 by simp
    moreover have "midpoints bw ! 0 = (bw ! 0 + bw ! 1) / 2"
      using mid [of 0] n2 by simp
    ultimately show ?thesis using endpoints_nth(1) [OF ep] True by (simp add: field_simps)
  next
    case False
    then have "bw ! (i - 1) < bw ! i" using inc [of "i - 1" i] i by simp
    moreover have "ep ! i = (bw ! (i - 1) + bw ! i) / 2"
      using endpoints_interior [OF ep, of i] False i by simp
    ultimately show ?thesis by (simp add: field_simps)
  qed
  show "bw ! i < ep ! (i + 1)"
  proof (cases "i + 1 = ?n")
    case True
    have "bw ! (?n - 2) < bw ! (?n - 1)" using inc [of "?n - 2" "?n - 1"] n2 by simp
    moreover have "midpoints bw ! (?n - 2) = (bw ! (?n - 2) + bw ! (?n - 1)) / 2"
    proof -
      have "?n - 2 + 1 = ?n - 1" using n2 by simp
      then show ?thesis using mid [of "?n - 2"] n2 by simp
    qed
    ultimately have "bw ! (?n - 1) < ep ! ?n"
      using endpoints_nth(3) [OF ep] by (simp add: field_simps)
    moreover have "i = ?n - 1" using True by simp
    ultimately show ?thesis using True by simp
  next
    case False
    then have "bw ! i < bw ! (i + 1)" using inc [of i "i + 1"] i by simp
    moreover have "ep ! (i + 1) = (bw ! i + bw ! (i + 1)) / 2"
      using endpoints_interior [OF ep, of "i + 1"] False i by simp
    ultimately show ?thesis by (simp add: field_simps)
  qed
qed

lemma endpoints_strictly_sorted:
  assumes "sorted_wrt (<) bw" and ep: "endpoints bw = Inr ep"
  shows "sorted_wrt (<) ep"
proof -
  have len: "length ep = length bw + 1" using ep by (rule endpoints_length)
  have "ep ! i < ep ! Suc i" if "Suc i < length ep" for i
  proof -
    from that len have i: "i < length bw" by simp
    have "ep ! i < bw ! i" using assms i by (rule endpoints_bracket)
    also have "bw ! i < ep ! (i + 1)" using assms i by (rule endpoints_bracket)
    finally show ?thesis by simp
  qed
  moreover have "transp ((<) :: real \<Rightarrow> real \<Rightarrow> bool)" by (rule transp_on_less)
  ultimately show ?thesis by (simp add: sorted_wrt_iff_nth_Suc_transp)
qed

text \<open>
  Claim C3. For strictly increasing bin centers \<open>bw\<close> of length \<open>n \<ge> 2\<close> the edge array
  is built without error and has \<open>n + 1\<close> entries. Its entries 1 to \<open>n - 1\<close> are the
  midpoints of neighbouring centers, entry 0 mirrors the first half bin below the first
  center, entry \<open>n\<close> mirrors the last half bin above the last center, and every center
  lies strictly between its two edges.
\<close>

theorem endpoints_interleave:
  assumes "sorted_wrt (<) bw" and "2 \<le> length bw"
  shows "\<exists>ep. endpoints bw = Inr ep \<and> length ep = length bw + 1
     \<and> (\<forall>i. 1 \<le> i \<and> i \<le> length bw - 1 \<longrightarrow> ep ! i = (bw ! (i - 1) + bw ! i) / 2)
     \<and> (\<forall>j < length bw - 1. midpoints bw ! j = (bw ! j + bw ! (j + 1)) / 2)
     \<and> ep ! 0 = bw ! 0 - (midpoints bw ! 0 - bw ! 0)
     \<and> ep ! length bw =
         bw ! (length bw - 1) + (bw ! (length bw - 1) - midpoints bw ! (length bw - 2))
     \<and> (\<forall>i < length bw. ep ! i < bw ! i \<and> bw ! i < ep ! (i + 1))"
proof -
  let ?n = "length bw"
  obtain ep where ep: "endpoints bw = Inr ep"
    using endpoints_Inr [OF assms(2)] by blast
  have len: "length ep = ?n + 1" using ep by (rule endpoints_length)
  have interior: "ep ! i = (bw ! (i - 1) + bw ! i) / 2" if "1 \<le> i" "i \<le> ?n - 1" for i
    using endpoints_interior [OF ep, of i] that assms(2) by simp
  have mid: "midpoints bw ! j = (bw ! j + bw ! (j + 1)) / 2" if "j < ?n - 1" for j
    using nth_midpoints [OF that] by (simp add: add.commute)
  have first: "ep ! 0 = bw ! 0 - (midpoints bw ! 0 - bw ! 0)"
    using ep by (rule endpoints_nth(1))
  have final: "ep ! ?n = bw ! (?n - 1) + (bw ! (?n - 1) - midpoints bw ! (?n - 2))"
    using ep by (rule endpoints_nth(3))
  have bracket: "ep ! i < bw ! i \<and> bw ! i < ep ! (i + 1)" if "i < ?n" for i
    using endpoints_bracket [OF assms(1) ep that] by simp
  show ?thesis
    using ep len interior mid first final bracket by blast
qed

theorem endpoints_interleave_witness:
  "sorted_wrt (<) [150, 250, 350, 450 :: real] \<and> 2 \<le> length [150, 250, 350, 450 :: real]
   \<and> endpoints [150, 250, 350, 450] = Inr [100, 200, 300, 400, 500]"
  using endpoints_interleave [of "[150, 250, 350, 450]"]
  by (simp add: endpoints_def midpoints_def adjacent_means_def)

section \<open>Operations that an Observation refuses\<close>

text \<open>
  Claim C7. In both modules the five methods \<open>__mul__\<close>, \<open>__rmul__\<close>, \<open>__add__\<close>,
  \<open>__radd__\<close> and \<open>redshift\<close> raise NotImplementedError for every object and every
  operand: the outcome is never a returned value with an object after the call, so
  nothing is returned and the Observation is not changed.
\<close>

theorem disabled_operations_raise:
  "Observation_mul self other = Inl (NotImplementedError ''Observations cannot be multiplied'')
   \<and> Observation_rmul self other = Inl (NotImplementedError ''Observations cannot be multiplied'')
   \<and> Observation_add self other = Inl (NotImplementedError ''Observations cannot be added'')
   \<and> Observation_radd self other = Inl (NotImplementedError ''Observations cannot be added'')
   \<and> Observation_redshift self z = Inl (NotImplementedError ''Observations cannot be redshifted'')
   \<and> new_Observation_mul self other = Inl (NotImplementedError ''Observations cannot be multiplied'')
   \<and> new_Observation_rmul self other = Inl (NotImplementedError ''Observations cannot be multiplied'')
   \<and> new_Observation_add self other = Inl (NotImplementedError ''Observations cannot be added'')
   \<and> new_Observation_radd self other = Inl (NotImplementedError ''Observations cannot be added'')
   \<and> new_Observation_redshift self z = Inl (NotImplementedError ''Observations cannot be redshifted'')"
  by (simp add: Observation_mul_def Observation_rmul_def Observation_add_def
      Observation_radd_def Observation_redshift_def new_Observation_mul_def
      new_Observation_rmul_def new_Observation_add_def new_Observation_radd_def
      new_Observation_redshift_def)

section \<open>Bin centers that are too few\<close>

lemma endpoints_short:
  assumes "length bw < 2"
  shows "endpoints bw = Inl IndexError"
proof (cases "bw = []")
  case True
  then show ?thesis by (simp add: endpoints_def)
next
  case False
  have "length (midpoints bw) = 0" using assms length_midpoints [of bw] by simp
  then show ?thesis by (simp add: endpoints_def)
qed

lemma initbinflux_short:
  assumes "length bw < 2"
  shows "initbinflux call wave bw = Inl IndexError"
  using endpoints_short [OF assms] by (simp add: initbinflux_def)

lemma new_initbinflux_short:
  assumes "length bw < 2"
  shows "new_initbinflux call wave bw = Inl IndexError"
  using endpoints_short [OF assms] by (simp add: new_initbinflux_def)

text \<open>
  Claim C10. A binset given by the caller is stored as \<open>binwave\<close> as it is, whatever its
  length or order, and \<open>initbinset\<close> prints nothing and raises nothing, in both modules.
  Nothing checks the centers there: an empty or one-element array fails only in
  \<open>initbinflux\<close>, with the IndexError of the edge construction.
\<close>

theorem initbinset_stores_any_binset:
  "initbinset env spec band (Some b) = ([], Inr b)
   \<and> new_initbinset env band (Some b) = ([], Inr (Some b))
   \<and> initbinflux call wave [] = Inl IndexError
   \<and> initbinflux call wave [x] = Inl IndexError
   \<and> new_initbinflux call wave [] = Inl IndexError
   \<and> new_initbinflux call wave [x] = Inl IndexError"
  by (simp add: initbinset_def new_initbinset_def initbinflux_short new_initbinflux_short)

text \<open>
  Claim C6. With a binset of exactly one center the edge construction raises IndexError
  (the specification's DegenerateBinSetError), and so does \<open>initbinflux\<close> in both
  modules. Construction therefore always fails: in \<open>newobservation.py\<close> with that
  IndexError, in \<open>observation.py\<close> with that IndexError whenever the overlap validation,
  which runs first, lets the construction through.
\<close>

theorem single_bin_center_raises:
  assumes "length bs = 1"
  shows "endpoints bs = Inl IndexError
     \<and> initbinflux call wave bs = Inl IndexError
     \<and> new_initbinflux call wave bs = Inl IndexError
     \<and> (\<forall>sp. validate_overlap env spec band force = Inr sp \<longrightarrow>
           Observation_init env spec band (Some bs) force = ([], Inl IndexError))
     \<and> (\<exists>e. snd (Observation_init env spec band (Some bs) force) = Inl e)
     \<and> new_Observation_init env spec band (Some bs) = ([], Inl IndexError)"
proof -
  have short: "length bs < 2" using assms by simp
  have a: "endpoints bs = Inl IndexError" using short by (rule endpoints_short)
  have b: "initbinflux c w bs = Inl IndexError" for c w using short by (rule initbinflux_short)
  have c: "new_initbinflux c w bs = Inl IndexError" for c w
    using short by (rule new_initbinflux_short)
  have d: "Observation_init env spec band (Some bs) force = ([], Inl IndexError)"
    if "validate_overlap env spec band force = Inr sp" for sp
    using that by (simp add: Observation_init_def initbinset_def b)
  have e: "\<exists>e. snd (Observation_init env spec band (Some bs) force) = Inl e"
    by (cases "validate_overlap env spec band force")
       (simp_all add: Observation_init_def initbinset_def b)
  have f: "new_Observation_init env spec band (Some bs) = ([], Inl IndexError)"
    by (simp add: new_Observation_init_def new_initbinset_def c)
  show ?thesis using a b c d e f by blast
qed

theorem single_bin_center_raises_witness:
  "length [150 :: real] = 1
   \<and> validate_overlap (example_env ''full'') Source () None = Inr Source
   \<and> Observation_init (example_env ''full'') Source () (Some [150]) None = ([], Inl IndexError)
   \<and> new_Observation_init (example_env ''full'') Source () (Some [150]) = ([], Inl IndexError)"
  using single_bin_center_raises [where bs = "[150]" and env = "example_env ''full''"
      and spec = Source and band = "()" and force = None]
  by (simp add: validate_overlap_def example_env_def)


section \<open>The overlap policy\<close>

text \<open>
  Claim C5, as amended. The force string is compared after lower-casing. Without a force
  policy \<open>validate_overlap\<close> raises ValueError (the specification's DomainOverlapError)
  exactly when the overlap status is \<open>partial\<close> or \<open>none\<close>, and leaves the spectrum as it
  is otherwise. With a force string whose lower-case form is \<open>taper\<close> the spectrum is
  replaced by its tapered form (tabulated first when it has no \<open>taper\<close> of its own); with
  one whose lower-case form starts with \<open>extrap\<close> the spectrum is left as it is, whatever
  the overlap; every other force string raises KeyError (the specification's
  InvalidForcePolicyError).
\<close>

theorem validate_overlap_policy:
  "(validate_overlap env spec band None =
      (if check_overlap env spec band = ''partial'' then
         Inl (ValueError (''Spectrum and bandpass do not fully overlap. '' @
              ''You may use force=[extrap|taper] to force this Observation anyway.''))
       else if check_overlap env spec band = ''none'' then
         Inl (ValueError ''Spectrum and bandpass are disjoint'')
       else Inr spec))
   \<and> (lower f = ''taper'' \<longrightarrow>
        (\<forall>s. taper env spec = Inr s \<longrightarrow> validate_overlap env spec band (Some f) = Inr s)
        \<and> (\<forall>t. taper env spec = Inl AttributeError \<and> tabulate env spec = Inr t \<longrightarrow>
              validate_overlap env spec band (Some f) = taper env t))
   \<and> (prefix ''extrap'' (lower f) \<longrightarrow> validate_overlap env spec band (Some f) = Inr spec)
   \<and> (lower f \<noteq> ''taper'' \<and> \<not> prefix ''extrap'' (lower f) \<longrightarrow>
        validate_overlap env spec band (Some f) =
          Inl (KeyError (''Illegal value force='' @ f @ ''; legal values=('taper','extrap')'')))"
proof -
  have "lower f \<noteq> ''taper''" if "prefix ''extrap'' (lower f)"
    using that by auto
  then show ?thesis
    by (auto simp: validate_overlap_def Let_def)
qed

theorem validate_overlap_policy_witness:
  "lower ''Taper'' = ''taper''
   \<and> taper (example_env ''none'') Source = Inr (Tapered Source)
   \<and> validate_overlap (example_env ''none'') Source () (Some ''Taper'') = Inr (Tapered Source)
   \<and> validate_overlap (example_env ''none'') Source () None =
        Inl (ValueError ''Spectrum and bandpass are disjoint'')"
  using validate_overlap_policy [where env = "example_env ''none''" and spec = Source
      and band = "()" and f = "''Taper''"]
  by (simp add: example_env_def lower_def lower_char_def)

text \<open>
  The claim as first stated fails: \<open>TAPER\<close> is neither the string \<open>taper\<close> nor does it
  start with \<open>extrap\<close>, yet it is accepted and the spectrum is tapered.
\<close>

theorem force_case_counterexample:
  "''TAPER'' \<noteq> ''taper'' \<and> \<not> prefix ''extrap'' ''TAPER''
   \<and> validate_overlap (example_env ''none'') Source () (Some ''TAPER'') = Inr (Tapered Source)"
  by (simp add: validate_overlap_def example_env_def lower_def lower_char_def)

section \<open>The fallback bin grid\<close>



section \<open>The merged grid, the search and the slices\<close>

lemma MergeWaveSets_Inr:
  assumes "MergeWaveSets a b = Inr w"
  shows "sorted_wrt (<) w" and "set w = set a \<union> set b" and "a \<noteq> []" and "b \<noteq> []"
proof -
  from assms have w: "w = sort (remdups (a @ b))" and ne: "a \<noteq> []" "b \<noteq> []"
    by (auto simp: MergeWaveSets_def split: if_splits)
  show "sorted_wrt (<) w" unfolding w by (simp add: strict_sorted_iff)
  show "set w = set a \<union> set b" unfolding w by simp
  show "a \<noteq> []" and "b \<noteq> []" using ne by simp_all
qed

lemma MergeWaveSets_total:
  assumes "a \<noteq> []" and "b \<noteq> []"
  shows "\<exists>w. MergeWaveSets a b = Inr w"
  using assms by (simp add: MergeWaveSets_def)

lemma strict_sorted_nth_less_iff:
  fixes w :: "real list"
  assumes "sorted_wrt (<) w" and "i < length w" and "j < length w"
  shows "w ! i < w ! j \<longleftrightarrow> i < j"
proof
  assume lt: "w ! i < w ! j"
  show "i < j"
  proof (rule ccontr)
    assume "\<not> i < j"
    then have "j = i \<or> j < i" by auto
    then have "w ! j \<le> w ! i"
      using assms sorted_wrt_nth_less [of "(<)" w j i] by auto
    with lt show False by simp
  qed
next
  assume "i < j"
  then show "w ! i < w ! j" using assms by (simp add: sorted_wrt_nth_less)
qed

lemma searchsorted_nth:
  assumes "sorted_wrt (<) w" and "j < length w"
  shows "searchsorted w (w ! j) = int j"
proof -
  have "{i. i < length w \<and> w ! i < w ! j} = {..<j}"
    using assms strict_sorted_nth_less_iff [OF assms(1) _ assms(2)] by auto
  then show ?thesis by (simp add: searchsorted_def length_filter_conv_card)
qed

lemma searchsorted_member:
  assumes "sorted_wrt (<) w" and "x \<in> set w"
  shows "\<exists>j < length w. w ! j = x \<and> searchsorted w x = int j"
proof -
  from assms(2) obtain j where j: "j < length w" "w ! j = x"
    by (auto simp: in_set_conv_nth)
  then show ?thesis using searchsorted_nth [OF assms(1) j(1)] by auto
qed

lemma searchsorted_bounds: "0 \<le> searchsorted w x" "searchsorted w x \<le> int (length w)"
  by (simp_all add: searchsorted_def)

lemma searchsorted_mono:
  assumes "x \<le> y"
  shows "searchsorted w x \<le> searchsorted w y"
proof -
  have "length (filter (\<lambda>a. a < x) w) \<le> length (filter (\<lambda>a. a < y) w)"
  proof (induction w)
    case Nil
    show ?case by simp
  next
    case (Cons a w)
    then show ?case using assms by auto
  qed
  then show ?thesis by (simp add: searchsorted_def)
qed

lemma length_adjacent_diffs: "length (adjacent_diffs xs) = length xs - 1"
  by (simp add: adjacent_diffs_def)

lemma nth_adjacent_diffs:
  assumes "k < length xs - 1"
  shows "adjacent_diffs xs ! k = xs ! (k + 1) - xs ! k"
  using assms by (simp add: adjacent_diffs_def nth_butlast)

lemma length_adjacent_means: "length (adjacent_means xs) = length xs - 1"
  by (simp add: adjacent_means_def)

lemma nth_adjacent_means:
  assumes "k < length xs - 1"
  shows "adjacent_means xs ! k = (xs ! (k + 1) + xs ! k) / 2"
  using assms by (simp add: adjacent_means_def nth_butlast)

lemma lasts_eq_tail:
  fixes idx :: "int list"
  shows "map2 (+) (butlast idx) (adjacent_diffs idx) = drop 1 idx"
  by (rule nth_equalityI) (simp_all add: adjacent_diffs_def nth_butlast)

lemma py_slice_length_eq:
  assumes "length xs = length ys"
  shows "length (py_slice xs f l) = length (py_slice ys f l)"
  using assms by (simp add: py_slice_def Let_def)

lemma py_slice_upt:
  assumes "a \<le> b" and "b \<le> length xs"
  shows "py_slice xs (int a) (int b) = map ((!) xs) [a..<b]"
proof -
  have "py_slice xs (int a) (int b) = take (b - a) (drop a xs)"
    using assms by (simp add: py_slice_def Let_def min_def nat_diff_distrib)
  also have "\<dots> = map ((!) xs) [a..<b]"
    by (rule nth_equalityI) (use assms in auto)
  finally show ?thesis .
qed

lemma py_slice_empty:
  assumes "0 \<le> l" and "l \<le> f"
  shows "py_slice xs f l = []"
  using assms by (simp add: py_slice_def Let_def min_def)

lemma sum_list_map2_upt:
  fixes av dw :: "real list"
  shows "sum_list (map2 (*) (map ((!) av) ks) (map ((!) dw) ks)) =
         (\<Sum>k\<leftarrow>ks. av ! k * dw ! k)"
  by (simp add: zip_map_map zip_same_conv_map o_def)

lemma telescope_upt:
  fixes w :: "real list"
  assumes "a \<le> b"
  shows "(\<Sum>k\<leftarrow>[a..<b]. w ! (k + 1) - w ! k) = w ! b - w ! a"
  using assms
proof (induction b)
  case 0
  then show ?case by simp
next
  case (Suc b)
  show ?case
  proof (cases "a = Suc b")
    case True
    then show ?thesis by simp
  next
    case False
    with Suc.prems have "a \<le> b" by simp
    then show ?thesis using Suc.IH by simp
  qed
qed

lemma bin_sums_Inr:
  assumes "length av = length dw"
  shows "bin_sums av dw ps =
    Inr (map (\<lambda>(f, l).
           (np_div (sum_list (map2 (*) (py_slice av f l) (py_slice dw f l)))
                   (sum_list (py_slice dw f l)),
            sum_list (py_slice dw f l))) ps)"
proof (induction ps)
  case Nil
  show ?case by simp
next
  case (Cons p ps)
  obtain f l where p: "p = (f, l)" by (cases p)
  have "length (py_slice av f l) = length (py_slice dw f l)"
    using assms by (rule py_slice_length_eq)
  then show ?case using Cons.IH by (simp add: p np_mul_def Let_def)
qed

lemma new_bin_sums_Inr:
  assumes "length av = length dw"
  shows "new_bin_sums av dw ps =
    Inr (map (\<lambda>(f, l). sum_list (map2 (*) (py_slice av f l) (py_slice dw f l))) ps)"
proof (induction ps)
  case Nil
  show ?case by simp
next
  case (Cons p ps)
  obtain f l where p: "p = (f, l)" by (cases p)
  have "length (py_slice av f l) = length (py_slice dw f l)"
    using assms by (rule py_slice_length_eq)
  then show ?case using Cons.IH by (simp add: p np_mul_def)
qed

lemma initbinflux_Inr:
  assumes "endpoints bw = Inr ep" and "MergeWaveSets wave ep = Inr w0"
    and "MergeWaveSets w0 bw = Inr w" and "length (call w) = length w"
  shows "initbinflux call wave bw =
    Inr \<lparr>indices = butlast (map (searchsorted w) ep),
         indices_last = drop 1 (map (searchsorted w) ep),
         deltaw = adjacent_diffs w,
         binflux = map (\<lambda>(f, l).
             np_div (sum_list (map2 (*) (py_slice (adjacent_means (call w)) f l)
                                        (py_slice (adjacent_diffs w) f l)))
                    (sum_list (py_slice (adjacent_diffs w) f l)))
           (zip (butlast (map (searchsorted w) ep)) (drop 1 (map (searchsorted w) ep))),
         intwave = map (\<lambda>(f, l). sum_list (py_slice (adjacent_diffs w) f l))
           (zip (butlast (map (searchsorted w) ep)) (drop 1 (map (searchsorted w) ep)))\<rparr>"
proof -
  have len: "length (adjacent_means (call w)) = length (adjacent_diffs w)"
    using assms(4) by (simp add: length_adjacent_means length_adjacent_diffs)
  show ?thesis
    unfolding initbinflux_def Let_def lasts_eq_tail
    by (simp add: assms(1,2,3) bin_sums_Inr [OF len] o_def case_prod_unfold)
qed

lemma new_initbinflux_Inr:
  assumes "endpoints bw = Inr ep" and "MergeWaveSets wave ep = Inr w"
    and "length (call w) = length w"
  shows "new_initbinflux call wave bw =
    Inr \<lparr>new_indices = butlast (map (searchsorted w) ep),
         new_indices_last = drop 1 (map (searchsorted w) ep),
         new_deltaw = adjacent_diffs w,
         new_binflux = map (\<lambda>(f, l).
             sum_list (map2 (*) (py_slice (adjacent_means (call w)) f l)
                                (py_slice (adjacent_diffs w) f l)))
           (zip (butlast (map (searchsorted w) ep)) (drop 1 (map (searchsorted w) ep)))\<rparr>"
proof -
  have len: "length (adjacent_means (call w)) = length (adjacent_diffs w)"
    using assms(3) by (simp add: length_adjacent_means length_adjacent_diffs)
  show ?thesis
    unfolding new_initbinflux_def Let_def lasts_eq_tail
    by (simp add: assms(1,2) new_bin_sums_Inr [OF len] o_def case_prod_unfold)
qed

section \<open>What each bin receives\<close>



lemma index_pairs:
  fixes idx :: "int list"
  assumes "length idx = n + 1"
  shows "length (zip (butlast idx) (drop 1 idx)) = n"
    and "\<And>i. i < n \<Longrightarrow> zip (butlast idx) (drop 1 idx) ! i = (idx ! i, idx ! (i + 1))"
  using assms by (simp_all add: nth_butlast)

lemma initbinflux_fields:
  assumes ep: "endpoints bw = Inr ep" and w0: "MergeWaveSets wave ep = Inr w0"
    and w: "MergeWaveSets w0 bw = Inr w" and len: "length (call w) = length w"
    and r: "initbinflux call wave bw = Inr r"
  shows "length (binflux r) = length bw" and "length (intwave r) = length bw"
    and "\<And>i. i < length bw \<Longrightarrow> indices r ! i = searchsorted w (ep ! i)"
    and "\<And>i. i < length bw \<Longrightarrow> indices_last r ! i = searchsorted w (ep ! (i + 1))"
    and "\<And>i. i < length bw \<Longrightarrow> intwave r ! i =
           sum_list (py_slice (adjacent_diffs w) (searchsorted w (ep ! i))
                              (searchsorted w (ep ! (i + 1))))"
    and "\<And>i. i < length bw \<Longrightarrow> binflux r ! i =
           np_div (sum_list (map2 (*)
                     (py_slice (adjacent_means (call w)) (searchsorted w (ep ! i))
                               (searchsorted w (ep ! (i + 1))))
                     (py_slice (adjacent_diffs w) (searchsorted w (ep ! i))
                               (searchsorted w (ep ! (i + 1))))))
                  (sum_list (py_slice (adjacent_diffs w) (searchsorted w (ep ! i))
                               (searchsorted w (ep ! (i + 1)))))"
proof -
  let ?idx = "map (searchsorted w) ep"
  let ?ps = "zip (butlast ?idx) (drop 1 ?idx)"
  have lep: "length ep = length bw + 1" using ep by (rule endpoints_length)
  then have lidx: "length ?idx = length bw + 1" by simp
  have lps: "length ?ps = length bw" using lidx by (rule index_pairs(1))
  have ps: "?ps ! i = (searchsorted w (ep ! i), searchsorted w (ep ! (i + 1)))"
    if "i < length bw" for i
    using index_pairs(2) [OF lidx that] that lep by simp
  note rec = initbinflux_Inr [where call = call, OF ep w0 w len]
  from r rec have bf: "binflux r = map (\<lambda>(f, l).
             np_div (sum_list (map2 (*) (py_slice (adjacent_means (call w)) f l)
                                        (py_slice (adjacent_diffs w) f l)))
                    (sum_list (py_slice (adjacent_diffs w) f l))) ?ps"
    and iw: "intwave r = map (\<lambda>(f, l). sum_list (py_slice (adjacent_diffs w) f l)) ?ps"
    and fi: "indices r = butlast ?idx" and la: "indices_last r = drop 1 ?idx"
    by auto
  show "length (binflux r) = length bw" unfolding bf using lps by simp
  show "length (intwave r) = length bw" unfolding iw using lps by simp
  show "indices r ! i = searchsorted w (ep ! i)" if "i < length bw" for i
    unfolding fi using that lep by (simp add: nth_butlast)
  show "indices_last r ! i = searchsorted w (ep ! (i + 1))" if "i < length bw" for i
    unfolding la using that lep by simp
  show "intwave r ! i = sum_list (py_slice (adjacent_diffs w) (searchsorted w (ep ! i))
                              (searchsorted w (ep ! (i + 1))))" if "i < length bw" for i
    unfolding iw using that lps ps [OF that] by simp
  show "binflux r ! i =
           np_div (sum_list (map2 (*)
                     (py_slice (adjacent_means (call w)) (searchsorted w (ep ! i))
                               (searchsorted w (ep ! (i + 1))))
                     (py_slice (adjacent_diffs w) (searchsorted w (ep ! i))
                               (searchsorted w (ep ! (i + 1))))))
                  (sum_list (py_slice (adjacent_diffs w) (searchsorted w (ep ! i))
                               (searchsorted w (ep ! (i + 1)))))" if "i < length bw" for i
    unfolding bf using that lps ps [OF that] by simp
qed


lemma width_slice:
  assumes "a \<le> b" and "b < length w"
  shows "sum_list (py_slice (adjacent_diffs w) (int a) (int b)) =
         (\<Sum>k\<leftarrow>[a..<b]. w ! (k + 1) - w ! k)"
proof -
  have "b \<le> length (adjacent_diffs w)" using assms by (simp add: length_adjacent_diffs)
  then have "py_slice (adjacent_diffs w) (int a) (int b) = map ((!) (adjacent_diffs w)) [a..<b]"
    using assms(1) by (intro py_slice_upt)
  also have "\<dots> = map (\<lambda>k. w ! (k + 1) - w ! k) [a..<b]"
    using assms by (intro map_cong refl nth_adjacent_diffs) auto
  finally show ?thesis by simp
qed

lemma flux_slice:
  assumes "a \<le> b" and "b < length w" and "length f = length w"
  shows "sum_list (map2 (*) (py_slice (adjacent_means f) (int a) (int b))
                            (py_slice (adjacent_diffs w) (int a) (int b))) =
         (\<Sum>k\<leftarrow>[a..<b]. (f ! k + f ! (k + 1)) / 2 * (w ! (k + 1) - w ! k))"
proof -
  have "b \<le> length (adjacent_diffs w)" using assms by (simp add: length_adjacent_diffs)
  then have dw: "py_slice (adjacent_diffs w) (int a) (int b) = map ((!) (adjacent_diffs w)) [a..<b]"
    using assms(1) by (intro py_slice_upt)
  have "b \<le> length (adjacent_means f)" using assms by (simp add: length_adjacent_means)
  then have av: "py_slice (adjacent_means f) (int a) (int b) = map ((!) (adjacent_means f)) [a..<b]"
    using assms(1) by (intro py_slice_upt)
  have "sum_list (map2 (*) (py_slice (adjacent_means f) (int a) (int b))
                            (py_slice (adjacent_diffs w) (int a) (int b))) =
        (\<Sum>k\<leftarrow>[a..<b]. adjacent_means f ! k * adjacent_diffs w ! k)"
    unfolding dw av by (rule sum_list_map2_upt)
  also have "\<dots> = (\<Sum>k\<leftarrow>[a..<b]. (f ! k + f ! (k + 1)) / 2 * (w ! (k + 1) - w ! k))"
  proof (rule arg_cong [where f = sum_list], rule map_cong [OF refl])
    fix k assume "k \<in> set [a..<b]"
    then have k: "k < length w - 1" "k < length f - 1" using assms by auto
    show "adjacent_means f ! k * adjacent_diffs w ! k =
          (f ! k + f ! (k + 1)) / 2 * (w ! (k + 1) - w ! k)"
      by (simp add: nth_adjacent_means [OF k(2)] nth_adjacent_diffs [OF k(1)] add.commute)
  qed
  finally show ?thesis .
qed

lemma bin_range:
  assumes sep: "sorted_wrt (<) ep" and sw: "sorted_wrt (<) w" and sub: "set ep \<subseteq> set w"
    and i: "i + 1 < length ep"
  shows "\<exists>a b. searchsorted w (ep ! i) = int a \<and> searchsorted w (ep ! (i + 1)) = int b
           \<and> a < b \<and> b < length w \<and> w ! a = ep ! i \<and> w ! b = ep ! (i + 1)"
proof -
  have "ep ! i \<in> set w" "ep ! (i + 1) \<in> set w" using sub i by auto
  then obtain a b where a: "a < length w" "w ! a = ep ! i" "searchsorted w (ep ! i) = int a"
    and b: "b < length w" "w ! b = ep ! (i + 1)" "searchsorted w (ep ! (i + 1)) = int b"
    using searchsorted_member [OF sw] by blast
  have "ep ! i < ep ! (i + 1)" using sep i by (simp add: sorted_wrt_nth_less)
  then have "w ! a < w ! b" using a b by simp
  then have "a < b" using strict_sorted_nth_less_iff [OF sw a(1) b(1)] by simp
  then show ?thesis using a b by blast
qed

lemma initbinflux_total:
  assumes n2: "2 \<le> length bw" and wave: "wave \<noteq> []"
  shows "\<exists>ep w0 w. endpoints bw = Inr ep \<and> MergeWaveSets wave ep = Inr w0
           \<and> MergeWaveSets w0 bw = Inr w"
proof -
  obtain ep where ep: "endpoints bw = Inr ep" using endpoints_Inr [OF n2] by blast
  have "length ep = length bw + 1" using ep by (rule endpoints_length)
  then have epne: "ep \<noteq> []" by auto
  obtain w0 where w0: "MergeWaveSets wave ep = Inr w0"
    using MergeWaveSets_total [OF wave epne] by blast
  have "set w0 = set wave \<union> set ep" using w0 by (rule MergeWaveSets_Inr)
  then have w0ne: "w0 \<noteq> []" using wave by auto
  have bwne: "bw \<noteq> []" using n2 by auto
  obtain w where "MergeWaveSets w0 bw = Inr w"
    using MergeWaveSets_total [OF w0ne bwne] by blast
  then show ?thesis using ep w0 by blast
qed

lemma sorted_bin:
  assumes sbw: "sorted_wrt (<) bw" and ep: "endpoints bw = Inr ep"
    and sw: "sorted_wrt (<) w" and sub: "set ep \<subseteq> set w"
    and i: "i < length bw"
  shows "\<exists>a b. searchsorted w (ep ! i) = int a \<and> searchsorted w (ep ! (i + 1)) = int b
           \<and> a < b \<and> b < length w
           \<and> 0 < (\<Sum>k\<leftarrow>[a..<b]. w ! (k + 1) - w ! k)"
proof -
  have sep: "sorted_wrt (<) ep" using sbw ep by (rule endpoints_strictly_sorted)
  have "length ep = length bw + 1" using ep by (rule endpoints_length)
  then have i': "i + 1 < length ep" using i by simp
  obtain a b where ab: "searchsorted w (ep ! i) = int a" "searchsorted w (ep ! (i + 1)) = int b"
    "a < b" "b < length w" "w ! a = ep ! i" "w ! b = ep ! (i + 1)"
    using bin_range [OF sep sw sub i'] by blast
  have "ep ! i < ep ! (i + 1)" using sep i' by (simp add: sorted_wrt_nth_less)
  moreover have "(\<Sum>k\<leftarrow>[a..<b]. w ! (k + 1) - w ! k) = w ! b - w ! a"
    using ab(3) by (intro telescope_upt) simp
  ultimately have "0 < (\<Sum>k\<leftarrow>[a..<b]. w ! (k + 1) - w ! k)" using ab by simp
  then show ?thesis using ab by blast
qed

section \<open>Flux density per bin\<close>

text \<open>
  Claim C1. In \<open>observation.py\<close> (the flux-density variant), for strictly increasing bin
  centers \<open>bw\<close> of length at least 2, a non-empty natural waveset and an evaluation that
  returns one flux per wavelength, \<open>initbinflux\<close> succeeds. Its grid \<open>w\<close> is the merge of
  the natural waveset with the bin edges, merged again with the bin centers, so it is
  strictly increasing and holds every edge and every center. For every bin \<open>i\<close> the
  index range runs from the position \<open>first\<close> of edge \<open>i\<close> to the position \<open>lst\<close> of edge
  \<open>i + 1\<close>, it is not empty, \<open>_intwave[i]\<close> is the sum of the grid widths over that range,
  and \<open>_binflux[i]\<close> is the trapezoid sum of the evaluated flux over that range divided by
  that width.
\<close>

theorem initbinflux_flux_density:
  assumes "sorted_wrt (<) bw" and "2 \<le> length bw" and "wave \<noteq> []"
    and "\<forall>ws. length (call ws) = length ws"
  shows "\<exists>ep w0 w r.
      endpoints bw = Inr ep \<and> MergeWaveSets wave ep = Inr w0 \<and> MergeWaveSets w0 bw = Inr w
    \<and> sorted_wrt (<) w \<and> set w = set wave \<union> set ep \<union> set bw
    \<and> initbinflux call wave bw = Inr r
    \<and> length (binflux r) = length bw \<and> length (intwave r) = length bw
    \<and> (\<forall>i < length bw. \<exists>first lst.
          searchsorted w (ep ! i) = int first \<and> searchsorted w (ep ! (i + 1)) = int lst
        \<and> indices r ! i = int first \<and> indices_last r ! i = int lst
        \<and> first < lst \<and> lst < length w
        \<and> intwave r ! i = (\<Sum>k\<leftarrow>[first..<lst]. w ! (k + 1) - w ! k)
        \<and> binflux r ! i =
            Num ((\<Sum>k\<leftarrow>[first..<lst]. (call w ! k + call w ! (k + 1)) / 2 * (w ! (k + 1) - w ! k))
                 / (\<Sum>k\<leftarrow>[first..<lst]. w ! (k + 1) - w ! k)))"
proof -
  obtain ep w0 w where ep: "endpoints bw = Inr ep" and w0: "MergeWaveSets wave ep = Inr w0"
    and w: "MergeWaveSets w0 bw = Inr w"
    using initbinflux_total [OF assms(2,3)] by blast
  have len: "length (call w) = length w" using assms(4) by simp
  obtain r where r: "initbinflux call wave bw = Inr r"
    using initbinflux_Inr [where call = call, OF ep w0 w len] by blast
  have sw: "sorted_wrt (<) w" using w by (rule MergeWaveSets_Inr)
  have setw: "set w = set wave \<union> set ep \<union> set bw"
    using MergeWaveSets_Inr(2) [OF w] MergeWaveSets_Inr(2) [OF w0] by simp
  then have sub: "set ep \<subseteq> set w" by auto
  note fields = initbinflux_fields [where call = call, OF ep w0 w len r]
  have bins: "\<exists>first lst.
          searchsorted w (ep ! i) = int first \<and> searchsorted w (ep ! (i + 1)) = int lst
        \<and> indices r ! i = int first \<and> indices_last r ! i = int lst
        \<and> first < lst \<and> lst < length w
        \<and> intwave r ! i = (\<Sum>k\<leftarrow>[first..<lst]. w ! (k + 1) - w ! k)
        \<and> binflux r ! i =
            Num ((\<Sum>k\<leftarrow>[first..<lst]. (call w ! k + call w ! (k + 1)) / 2 * (w ! (k + 1) - w ! k))
                 / (\<Sum>k\<leftarrow>[first..<lst]. w ! (k + 1) - w ! k))"
    if i: "i < length bw" for i
  proof -
    obtain a b where a: "searchsorted w (ep ! i) = int a"
      and b: "searchsorted w (ep ! (i + 1)) = int b"
      and ab: "a < b" and bw: "b < length w"
      and pos: "0 < (\<Sum>k\<leftarrow>[a..<b]. w ! (k + 1) - w ! k)"
      using sorted_bin [OF assms(1) ep sw sub i] by blast
    have le: "a \<le> b" using ab by simp
    have "intwave r ! i = sum_list (py_slice (adjacent_diffs w) (int a) (int b))"
      using fields(5) [OF i] unfolding a b .
    also have "\<dots> = (\<Sum>k\<leftarrow>[a..<b]. w ! (k + 1) - w ! k)"
      by (rule width_slice [OF le bw])
    finally have width: "intwave r ! i = (\<Sum>k\<leftarrow>[a..<b]. w ! (k + 1) - w ! k)" .
    have "binflux r ! i =
        np_div (sum_list (map2 (*) (py_slice (adjacent_means (call w)) (int a) (int b))
                                   (py_slice (adjacent_diffs w) (int a) (int b))))
               (sum_list (py_slice (adjacent_diffs w) (int a) (int b)))"
      using fields(6) [OF i] unfolding a b .
    also have "\<dots> =
        np_div (\<Sum>k\<leftarrow>[a..<b]. (call w ! k + call w ! (k + 1)) / 2 * (w ! (k + 1) - w ! k))
               (\<Sum>k\<leftarrow>[a..<b]. w ! (k + 1) - w ! k)"
      unfolding width_slice [OF le bw] flux_slice [OF le bw len] ..
    finally have "binflux r ! i =
        np_div (\<Sum>k\<leftarrow>[a..<b]. (call w ! k + call w ! (k + 1)) / 2 * (w ! (k + 1) - w ! k))
               (\<Sum>k\<leftarrow>[a..<b]. w ! (k + 1) - w ! k)" .
    then have flux: "binflux r ! i =
        Num ((\<Sum>k\<leftarrow>[a..<b]. (call w ! k + call w ! (k + 1)) / 2 * (w ! (k + 1) - w ! k))
             / (\<Sum>k\<leftarrow>[a..<b]. w ! (k + 1) - w ! k))"
      using pos by (simp add: np_div_def)
    have "indices r ! i = int a" "indices_last r ! i = int b"
      using fields(3,4) [OF i] a b by simp_all
    then show ?thesis using a b ab bw width flux by blast
  qed
  show ?thesis
    using ep w0 w sw setw r fields(1,2) bins by blast
qed

theorem initbinflux_flux_density_witness:
  "sorted_wrt (<) [150, 250, 350, 450 :: real] \<and> 2 \<le> length [150, 250, 350, 450 :: real]
   \<and> [100, 200, 300, 400, 500 :: real] \<noteq> []
   \<and> (\<forall>ws. length (composite_call (example_env ''full'') Source () ws) = length ws)
   \<and> initbinflux (composite_call (example_env ''full'') Source ()) [100, 200, 300, 400, 500]
        [150, 250, 350, 450] =
      Inr \<lparr>indices = [0, 2, 4, 6], indices_last = [2, 4, 6, 8],
           deltaw = [50, 50, 50, 50, 50, 50, 50, 50],
           binflux = [Num 2, Num 2, Num 2, Num 2], intwave = [100, 100, 100, 100]\<rparr>"
proof -
  let ?call = "composite_call (example_env ''full'') Source ()"
  have h1: "sorted_wrt (<) [150, 250, 350, 450 :: real]" by simp
  have h2: "2 \<le> length [150, 250, 350, 450 :: real]" by simp
  have h3: "[100, 200, 300, 400, 500 :: real] \<noteq> []" by simp
  have h4: "\<forall>ws. length (?call ws) = length ws" by (simp add: example_env_def)
  have val: "initbinflux ?call [100, 200, 300, 400, 500] [150, 250, 350, 450] =
      Inr \<lparr>indices = [0, 2, 4, 6], indices_last = [2, 4, 6, 8],
           deltaw = [50, 50, 50, 50, 50, 50, 50, 50],
           binflux = [Num 2, Num 2, Num 2, Num 2], intwave = [100, 100, 100, 100]\<rparr>"
    by (simp add: example_env_def initbinflux_def endpoints_def midpoints_def
        adjacent_means_def adjacent_diffs_def MergeWaveSets_def searchsorted_def py_slice_def
        np_mul_def np_div_def)
  from initbinflux_flux_density [OF h1 h2 h3 h4]
  obtain r where "initbinflux ?call [100, 200, 300, 400, 500] [150, 250, 350, 450] = Inr r"
    and "length (binflux r) = length [150, 250, 350, 450 :: real]"
    by blast
  with val h1 h2 h3 h4 show ?thesis by simp
qed

section \<open>Bins with an empty index range\<close>

lemma new_initbinflux_total:
  assumes n2: "2 \<le> length bw" and wave: "wave \<noteq> []"
  shows "\<exists>ep w. endpoints bw = Inr ep \<and> MergeWaveSets wave ep = Inr w"
  using initbinflux_total [OF assms] by blast





section \<open>The raw sums over all bins\<close>

lemma py_slice_zip:
  assumes "length av = length dw"
  shows "map2 f (py_slice av a b) (py_slice dw a b) = py_slice (map2 f av dw) a b"
  using assms by (simp add: py_slice_def Let_def take_zip drop_zip take_map drop_map)

lemma py_slice_append:
  assumes "0 \<le> a" and "a \<le> m" and "m \<le> b"
  shows "py_slice xs a m @ py_slice xs m b = py_slice xs a b"
proof -
  let ?n = "length xs"
  define a' where "a' = min ?n (nat a)"
  define m' where "m' = min ?n (nat m)"
  define b' where "b' = min ?n (nat b)"
  have ord: "a' \<le> m'" "m' \<le> b'" using assms by (simp_all add: a'_def m'_def b'_def)
  have sl: "py_slice xs a m = take (m' - a') (drop a' xs)"
    "py_slice xs m b = take (b' - m') (drop m' xs)"
    "py_slice xs a b = take (b' - a') (drop a' xs)"
    using assms by (auto simp: py_slice_def Let_def a'_def m'_def b'_def min_def nat_diff_distrib)
  have "take (b' - a') (drop a' xs) = take ((m' - a') + (b' - m')) (drop a' xs)"
    using ord by simp
  also have "\<dots> = take (m' - a') (drop a' xs) @ take (b' - m') (drop (m' - a') (drop a' xs))"
    by (rule take_add)
  also have "drop (m' - a') (drop a' xs) = drop m' xs" using ord by simp
  finally show ?thesis using sl by simp
qed

lemma ranges_tile_le:
  assumes "ranges_tile ps a b"
  shows "a \<le> b"
  using assms
proof (induction ps arbitrary: a)
  case Nil
  then show ?case by simp
next
  case (Cons p ps)
  obtain f l where p: "p = (f, l)" by (cases p)
  from Cons.prems p have "a \<le> l" and "ranges_tile ps l b" by simp_all
  then show ?case using Cons.IH [of l] by simp
qed

lemma ranges_tile_ends:
  assumes "ranges_tile ps a b" and "ps \<noteq> []"
  shows "a = fst (hd ps)" and "b = snd (last ps)"
proof -
  show "a = fst (hd ps)" using assms by (cases ps) auto
  show "b = snd (last ps)" using assms
  proof (induction ps arbitrary: a)
    case Nil
    then show ?case by simp
  next
    case (Cons p ps)
    obtain f l where p: "p = (f, l)" by (cases p)
    show ?case
    proof (cases "ps = []")
      case True
      then show ?thesis using Cons.prems p by simp
    next
      case False
      then show ?thesis using Cons.IH [of l] Cons.prems p by simp
    qed
  qed
qed

lemma ranges_tile_sum:
  fixes xs :: "real list"
  assumes "ranges_tile ps a b" and "0 \<le> a"
  shows "(\<Sum>(f, l)\<leftarrow>ps. sum_list (py_slice xs f l)) = sum_list (py_slice xs a b)"
  using assms
proof (induction ps arbitrary: a)
  case Nil
  then show ?case by (simp add: py_slice_empty)
next
  case (Cons p ps)
  obtain f l where p: "p = (f, l)" by (cases p)
  from Cons.prems p have fa: "f = a" and al: "a \<le> l" and rest: "ranges_tile ps l b"
    by simp_all
  have lb: "l \<le> b" using rest by (rule ranges_tile_le)
  have l0: "0 \<le> l" using al Cons.prems(2) by simp
  have "(\<Sum>(f, l)\<leftarrow>p # ps. sum_list (py_slice xs f l)) =
        sum_list (py_slice xs a l) + sum_list (py_slice xs l b)"
    using Cons.IH [OF rest l0] by (simp add: p fa)
  also have "\<dots> = sum_list (py_slice xs a l @ py_slice xs l b)" by simp
  also have "\<dots> = sum_list (py_slice xs a b)"
    by (simp only: py_slice_append [OF Cons.prems(2) al lb])
  finally show ?case .
qed

lemma sorted_indices_tile:
  fixes idx :: "int list"
  assumes "sorted idx" and "idx \<noteq> []"
  shows "ranges_tile (zip (butlast idx) (drop 1 idx)) (hd idx) (last idx)"
  using assms
proof (induction idx)
  case Nil
  then show ?case by simp
next
  case (Cons x idx)
  show ?case
  proof (cases idx)
    case Nil
    then show ?thesis by simp
  next
    case (Cons y rest)
    have "ranges_tile (zip (butlast idx) (drop 1 idx)) (hd idx) (last idx)"
      using Cons.IH Cons.prems local.Cons by simp
    then show ?thesis using Cons.prems local.Cons by simp
  qed
qed

lemma strictly_increasing_bins_tile:
  assumes sbw: "sorted_wrt (<) bw" and ep: "endpoints bw = Inr ep"
    and w: "MergeWaveSets wave ep = Inr w" and len: "length (call w) = length w"
    and r: "new_initbinflux call wave bw = Inr r"
  shows "ranges_tile (zip (new_indices r) (new_indices_last r))
           (searchsorted w (ep ! 0)) (searchsorted w (ep ! length bw))"
proof -
  let ?idx = "map (searchsorted w) ep"
  have lep: "length ep = length bw + 1" using ep by (rule endpoints_length)
  then have ne: "ep \<noteq> []" by auto
  have "sorted_wrt (<) ep" using sbw ep by (rule endpoints_strictly_sorted)
  then have "sorted ep" by (simp add: strict_sorted_iff)
  then have "sorted ?idx"
    by (simp add: sorted_map sorted_wrt_mono_rel [where P = "(\<le>)"] searchsorted_mono)
  moreover have "?idx \<noteq> []" using ne by simp
  ultimately have "ranges_tile (zip (butlast ?idx) (drop 1 ?idx)) (hd ?idx) (last ?idx)"
    by (rule sorted_indices_tile)
  moreover have "hd ?idx = searchsorted w (ep ! 0)" using ne by (simp add: hd_map hd_conv_nth)
  moreover have "last ?idx = searchsorted w (ep ! length bw)"
    using ne lep by (simp add: last_map last_conv_nth)
  moreover have "new_indices r = butlast ?idx" "new_indices_last r = drop 1 ?idx"
    using r new_initbinflux_Inr [where call = call, OF ep w len] by auto
  ultimately show ?thesis by simp
qed

text \<open>
  Claim C4. In \<open>newobservation.py\<close> (the raw-sum variant), when the index ranges of the
  bins exactly tile the merged grid from index \<open>a\<close> to index \<open>b\<close>, these are the positions
  of the first and of the last bin edge in the grid, and the sum of all \<open>_binflux\<close>
  entries is the trapezoid sum of the evaluated flux over the grid from \<open>a\<close> to \<open>b\<close>.
\<close>

theorem raw_bins_sum_to_trapezoid:
  assumes ep: "endpoints bw = Inr ep" and w: "MergeWaveSets wave ep = Inr w"
    and len: "length (call w) = length w"
    and r: "new_initbinflux call wave bw = Inr r"
    and tile: "ranges_tile (zip (new_indices r) (new_indices_last r)) a b"
  shows "a = searchsorted w (ep ! 0) \<and> b = searchsorted w (ep ! length bw)
     \<and> 0 \<le> a \<and> a \<le> b \<and> b < int (length w)
     \<and> sum_list (new_binflux r) = TrapezoidIntegrator w (call w) (nat a) (nat b)"
proof -
  let ?idx = "map (searchsorted w) ep"
  let ?ps = "zip (butlast ?idx) (drop 1 ?idx)"
  let ?av = "adjacent_means (call w)" and ?dw = "adjacent_diffs w"
  have n2: "2 \<le> length bw" using ep by (rule endpoints_length)
  have lep: "length ep = length bw + 1" using ep by (rule endpoints_length)
  then have lidx: "length ?idx = length bw + 1" by simp
  have lps: "length ?ps = length bw" using lidx by (rule index_pairs(1))
  then have psne: "?ps \<noteq> []" using n2 by (metis length_0_conv not_numeral_le_zero)
  have pos: "0 < length bw" and pred: "length bw - 1 < length bw" using n2 by auto
  note rec = new_initbinflux_Inr [where call = call, OF ep w len]
  have fl: "zip (new_indices r) (new_indices_last r) = ?ps" using r rec by auto
  have tile': "ranges_tile ?ps a b" using tile fl by simp
  have a: "a = searchsorted w (ep ! 0)"
  proof -
    have "a = fst (?ps ! 0)" using ranges_tile_ends(1) [OF tile' psne] psne
      by (simp add: hd_conv_nth)
    also have "?ps ! 0 = (?idx ! 0, ?idx ! (0 + 1))"
      by (rule index_pairs(2) [OF lidx pos])
    finally show ?thesis using lep by simp
  qed
  have b: "b = searchsorted w (ep ! length bw)"
  proof -
    have "b = snd (?ps ! (length bw - 1))"
      using ranges_tile_ends(2) [OF tile' psne] psne lps by (simp add: last_conv_nth)
    also have "?ps ! (length bw - 1) = (?idx ! (length bw - 1), ?idx ! (length bw - 1 + 1))"
      by (rule index_pairs(2) [OF lidx pred])
    finally show ?thesis using lep pos by simp
  qed
  have a0: "0 \<le> a" unfolding a by (rule searchsorted_bounds)
  have ab: "a \<le> b" using tile' by (rule ranges_tile_le)
  have sw: "sorted_wrt (<) w" using w by (rule MergeWaveSets_Inr)
  have "ep ! length bw \<in> set w" using MergeWaveSets_Inr(2) [OF w] lep by simp
  then obtain j where j: "j < length w" "searchsorted w (ep ! length bw) = int j"
    using searchsorted_member [OF sw] by blast
  then have bj: "b = int j" using b by simp
  obtain i where ai: "a = int i" using a0 by (metis nonneg_int_cases)
  have ij: "i \<le> j" using ab ai bj by simp
  have lav: "length ?av = length ?dw"
    using len by (simp add: length_adjacent_means length_adjacent_diffs)
  have "new_binflux r =
          map (\<lambda>(f, l). sum_list (map2 (*) (py_slice ?av f l) (py_slice ?dw f l))) ?ps"
    using r rec by auto
  also have "\<dots> = map (\<lambda>(f, l). sum_list (py_slice (map2 (*) ?av ?dw) f l)) ?ps"
    by (simp add: py_slice_zip [OF lav])
  finally have "sum_list (new_binflux r) =
          (\<Sum>(f, l)\<leftarrow>?ps. sum_list (py_slice (map2 (*) ?av ?dw) f l))"
    by simp
  also have "\<dots> = sum_list (py_slice (map2 (*) ?av ?dw) a b)"
    using tile' a0 by (rule ranges_tile_sum)
  also have "\<dots> = sum_list (map2 (*) (py_slice ?av (int i) (int j)) (py_slice ?dw (int i) (int j)))"
    by (simp add: py_slice_zip [OF lav] ai bj)
  also have "\<dots> = TrapezoidIntegrator w (call w) i j"
    unfolding TrapezoidIntegrator_def by (rule flux_slice [OF ij j(1) len])
  finally have "sum_list (new_binflux r) = TrapezoidIntegrator w (call w) (nat a) (nat b)"
    by (simp add: ai bj)
  then show ?thesis using a b a0 ab bj j(1) by simp
qed

theorem raw_bins_sum_to_trapezoid_witness:
  "endpoints [150, 250, 350, 450] = Inr [100, 200, 300, 400, 500]
   \<and> MergeWaveSets [100, 200, 300, 400, 500] [100, 200, 300, 400, 500] =
       Inr [100, 200, 300, 400, 500]
   \<and> new_initbinflux (composite_call (example_env ''full'') Source ())
       [100, 200, 300, 400, 500] [150, 250, 350, 450] =
       Inr \<lparr>new_indices = [0, 1, 2, 3], new_indices_last = [1, 2, 3, 4],
            new_deltaw = [100, 100, 100, 100], new_binflux = [200, 200, 200, 200]\<rparr>
   \<and> ranges_tile (zip [0, 1, 2, 3] [1, 2, 3, 4]) 0 4
   \<and> sum_list [200, 200, 200, 200 :: real] =
       TrapezoidIntegrator [100, 200, 300, 400, 500]
         (composite_call (example_env ''full'') Source () [100, 200, 300, 400, 500]) 0 4"
proof -
  let ?call = "composite_call (example_env ''full'') Source ()"
  let ?r = "\<lparr>new_indices = [0, 1, 2, 3], new_indices_last = [1, 2, 3, 4],
            new_deltaw = [100, 100, 100, 100], new_binflux = [200, 200, 200, 200]\<rparr>"
  have h1: "endpoints [150, 250, 350, 450] = Inr [100, 200, 300, 400, 500]"
    by (simp add: endpoints_def midpoints_def adjacent_means_def)
  have h2: "MergeWaveSets [100, 200, 300, 400, 500] [100, 200, 300, 400, 500] =
       Inr [100, 200, 300, 400, 500]"
    by (simp add: MergeWaveSets_def)
  have h3: "length (?call [100, 200, 300, 400, 500]) = length [100, 200, 300, 400, 500 :: real]"
    by (simp add: example_env_def)
  have h4: "new_initbinflux ?call [100, 200, 300, 400, 500] [150, 250, 350, 450] = Inr ?r"
    by (simp add: example_env_def new_initbinflux_def endpoints_def midpoints_def
        adjacent_means_def adjacent_diffs_def MergeWaveSets_def searchsorted_def py_slice_def
        np_mul_def)
  have h5: "ranges_tile (zip (new_indices ?r) (new_indices_last ?r)) 0 4" by simp
  have "sum_list (new_binflux ?r) =
      TrapezoidIntegrator [100, 200, 300, 400, 500] (?call [100, 200, 300, 400, 500])
        (nat 0) (nat 4)"
    using raw_bins_sum_to_trapezoid [where call = ?call, OF h1 h2 h3 h4 h5] by blast
  then show ?thesis using h1 h2 h4 h5 by simp
qed

section \<open>The pivot wavelength\<close>

lemma np_divide_nonzero:
  assumes "length xs = length ys" and "0 \<notin> set ys"
  shows "np_divide xs ys = Inr (map2 np_div xs ys)"
    and "finite_values (map2 np_div xs ys) = Some (map2 (/) xs ys)"
proof -
  show "np_divide xs ys = Inr (map2 np_div xs ys)"
    using assms(1) by (simp add: np_divide_def)
  show "finite_values (map2 np_div xs ys) = Some (map2 (/) xs ys)"
    using assms
  proof (induction xs ys rule: list_induct2)
    case Nil
    show ?case by simp
  next
    case (Cons x xs y ys)
    then show ?case by (simp add: np_div_def)
  qed
qed

text \<open>
  Claim C9. Let \<open>num\<close> be the trapezoid integral of \<open>f(w) * w\<close> and \<open>den\<close> that of
  \<open>f(w) / w\<close>, both over the natural waveset \<open>wave\<close> of the Observation, where the
  evaluation returns one flux per wavelength and no wavelength is zero. If \<open>num\<close> or
  \<open>den\<close> is zero, \<open>pivot\<close> returns 0 and raises nothing. Otherwise it returns the square
  root of \<open>num / den\<close> when that quotient is not negative, and \<open>math.sqrt\<close> raises
  ValueError when it is.
\<close>

theorem pivot_value:
  assumes "length (call wave) = length wave" and "0 \<notin> set wave"
    and "num = trapezoidIntegration wave (map2 (*) (call wave) wave)"
    and "den = trapezoidIntegration wave (map2 (/) (call wave) wave)"
  shows "(num = 0 \<or> den = 0 \<longrightarrow> pivot call wave = Inr (Some 0))
     \<and> (num \<noteq> 0 \<and> den \<noteq> 0 \<and> 0 \<le> num / den \<longrightarrow>
          pivot call wave = Inr (Some (sqrt (num / den))))
     \<and> (num \<noteq> 0 \<and> den \<noteq> 0 \<and> num / den < 0 \<longrightarrow>
          pivot call wave = Inl (ValueError ''math domain error''))"
proof -
  have mul: "np_mul (call wave) wave = Inr (map2 (*) (call wave) wave)"
    using assms(1) by (simp add: np_mul_def)
  note quot = np_divide_nonzero [OF assms(1,2)]
  have "pivot call wave =
      (if num = 0 \<or> den = 0 then Inr (Some 0)
       else if num / den < 0 then Inl (ValueError ''math domain error'')
       else Inr (Some (sqrt (num / den))))"
    unfolding pivot_def by (simp add: mul quot Let_def assms(3,4))
  then show ?thesis by auto
qed

theorem pivot_value_witness:
  "length (composite_call (example_env ''full'') Source () [1, 2]) = length [1, 2 :: real]
   \<and> 0 \<notin> set [1, 2 :: real]
   \<and> trapezoidIntegration [1, 2]
        (map2 (*) (composite_call (example_env ''full'') Source () [1, 2]) [1, 2]) = 3
   \<and> trapezoidIntegration [1, 2]
        (map2 (/) (composite_call (example_env ''full'') Source () [1, 2]) [1, 2]) = 3 / 2
   \<and> pivot (composite_call (example_env ''full'') Source ()) [1, 2] = Inr (Some (sqrt 2))"
proof -
  let ?call = "composite_call (example_env ''full'') Source ()"
  have h1: "length (?call [1, 2]) = length [1, 2 :: real]" by (simp add: example_env_def)
  have h2: "0 \<notin> set [1, 2 :: real]" by simp
  have h3: "3 = trapezoidIntegration [1, 2] (map2 (*) (?call [1, 2]) [1, 2])"
    by (simp add: example_env_def trapezoidIntegration_def TrapezoidIntegrator_def)
  have h4: "3 / 2 = trapezoidIntegration [1, 2] (map2 (/) (?call [1, 2]) [1, 2])"
    by (simp add: example_env_def trapezoidIntegration_def TrapezoidIntegrator_def)
  have "pivot ?call [1, 2] = Inr (Some (sqrt (3 / (3 / 2))))"
    using pivot_value [where call = ?call, OF h1 h2 h3 h4] by simp
  then show ?thesis using h1 h2 h3 [symmetric] h4 [symmetric] by simp
qed

end
